theory Spec2Isabelle
  imports Main "HOL-Library.Word"
begin

section \<open>Data model\<close>

text \<open>
  A decoded RGBA image, as \<open>make_outline\<close> sees it after \<open>convert("RGBA")\<close>: a size
  \<open>(w, h)\<close> and a grid of pixels, each a tuple of four 8-bit bands. The grid is kept as
  a list of \<open>h\<close> rows of \<open>w\<close> pixels each.
\<close>

type_synonym pixel = "8 word \<times> 8 word \<times> 8 word \<times> 8 word"

record image =
  width :: nat
  height :: nat
  data :: "pixel list list"

definition well_formed :: "image \<Rightarrow> bool" where
  "well_formed img =
     (length (data img) = height img \<and> list_all (\<lambda>r. length r = width img) (data img))"

text \<open>Band 3 of a pixel tuple: \<open>p[3]\<close>, the alpha channel.\<close>

fun alpha :: "pixel \<Rightarrow> 8 word" where
  "alpha (r, g, b, a) = a"

definition transparent :: pixel where
  "transparent = (0, 0, 0, 0)"

text \<open>The pixel stored at column \<open>x\<close> of row \<open>y\<close>.\<close>

definition pix :: "image \<Rightarrow> nat \<Rightarrow> nat \<Rightarrow> pixel" where
  "pix img x y = data img ! y ! x"

subsection \<open>The pixel access object of the image library\<close>

text \<open>
  \<open>pixels[x, y]\<close> and \<open>pixels[x, y] = v\<close> go through the pixel access object that
  Pillow's \<open>Image.load()\<close> returns. It counts a negative index from the far side and
  raises \<open>IndexError\<close> for a coordinate that is still outside the image afterwards.
  The error is a value here, so a read or write outside the grid shows in the result.
\<close>

datatype error = IndexError

definition resolve :: "nat \<Rightarrow> int \<Rightarrow> int" where
  "resolve n i = (if i < 0 then int n + i else i)"

definition getitem :: "image \<Rightarrow> int \<times> int \<Rightarrow> error + pixel" where
  "getitem img c =
     (let x = resolve (width img) (fst c); y = resolve (height img) (snd c)
      in if 0 \<le> x \<and> x < int (width img) \<and> 0 \<le> y \<and> y < int (height img)
         then Inr (pix img (nat x) (nat y))
         else Inl IndexError)"

definition setitem :: "image \<Rightarrow> int \<times> int \<Rightarrow> pixel \<Rightarrow> error + image" where
  "setitem img c v =
     (let x = resolve (width img) (fst c); y = resolve (height img) (snd c)
      in if 0 \<le> x \<and> x < int (width img) \<and> 0 \<le> y \<and> y < int (height img)
         then Inr (img\<lparr>data := (data img)[nat y := (data img ! nat y)[nat x := v]]\<rparr>)
         else Inl IndexError)"

text \<open>\<open>Image.new("RGBA", (w, h), color)\<close>: every pixel is \<open>color\<close>.\<close>

definition image_new :: "nat \<Rightarrow> nat \<Rightarrow> pixel \<Rightarrow> image" where
  "image_new w h color = \<lparr>width = w, height = h, data = replicate h (replicate w color)\<rparr>"

section \<open>The outline extraction\<close>

text \<open>A \<open>for\<close> loop whose body may raise: the first error ends the loop.\<close>

fun for_each :: "('a \<Rightarrow> 's \<Rightarrow> error + 's) \<Rightarrow> 'a list \<Rightarrow> 's \<Rightarrow> error + 's" where
  "for_each body [] s = Inr s"
| "for_each body (a # as) s =
     (case body a s of Inl e \<Rightarrow> Inl e | Inr s' \<Rightarrow> for_each body as s')"

definition offsets :: "(int \<times> int) list" where
  "offsets = [(-1, 0), (1, 0), (0, -1), (0, 1)]"

text \<open>
  The inner loop over the neighbour offsets. \<open>or\<close> is short-circuit, so the neighbour is
  read only when all four bounds comparisons are false; \<open>break\<close> leaves the loop with
  \<open>edge = True\<close>, and falling off the end leaves \<open>edge = False\<close>.
\<close>

fun edge_scan :: "image \<Rightarrow> nat \<Rightarrow> nat \<Rightarrow> int \<Rightarrow> int \<Rightarrow> (int \<times> int) list \<Rightarrow> error + bool" where
  "edge_scan pixels w h x y [] = Inr False"
| "edge_scan pixels w h x y (d # ds) =
     (let nx = x + fst d; ny = y + snd d
      in if nx < 0 \<or> nx \<ge> int w \<or> ny < 0 \<or> ny \<ge> int h then Inr True
         else (case getitem pixels (nx, ny) of
                 Inl e \<Rightarrow> Inl e
               | Inr p \<Rightarrow> if alpha p = 0 then Inr True else edge_scan pixels w h x y ds))"

text \<open>The body of the two coordinate loops, at one coordinate \<open>(x, y)\<close>.\<close>

definition visit :: "image \<Rightarrow> nat \<Rightarrow> nat \<Rightarrow> nat \<times> nat \<Rightarrow> image \<Rightarrow> error + image" where
  "visit pixels w h c outline_pixels =
     (let x = int (fst c); y = int (snd c)
      in case getitem pixels (x, y) of
           Inl e \<Rightarrow> Inl e
         | Inr p \<Rightarrow>
             if alpha p = 0 then Inr outline_pixels
             else (case edge_scan pixels w h x y offsets of
                     Inl e \<Rightarrow> Inl e
                   | Inr edge \<Rightarrow>
                       if edge
                       then (case getitem pixels (x, y) of
                               Inl e \<Rightarrow> Inl e
                             | Inr q \<Rightarrow> setitem outline_pixels (x, y) q)
                       else Inr outline_pixels))"

text \<open>
  \<open>make_outline\<close> between loading the source and saving the result: the image handed to
  \<open>save\<close>, or the error that was raised.
\<close>

definition make_outline :: "image \<Rightarrow> error + image" where
  "make_outline img =
     (let w = width img; h = height img;
          outline_img = image_new w h (0, 0, 0, 0)
      in for_each (\<lambda>y. for_each (\<lambda>x. visit img w h (x, y)) [0..<w]) [0..<h] outline_img)"

section \<open>The specification's boundary rule\<close>

text \<open>
  The boundary rule in the words of the specification. A neighbour position is open when
  it lies outside \<open>[0,W) \<times> [0,H)\<close> or the pixel there has alpha 0.
\<close>

definition neighbour_open :: "image \<Rightarrow> int \<Rightarrow> int \<Rightarrow> bool" where
  "neighbour_open img nx ny =
     (nx < 0 \<or> int (width img) \<le> nx \<or> ny < 0 \<or> int (height img) \<le> ny
      \<or> alpha (pix img (nat nx) (nat ny)) = 0)"

text \<open>A boundary position: at least one of the four axis-aligned neighbours is open.\<close>

definition boundary :: "image \<Rightarrow> nat \<Rightarrow> nat \<Rightarrow> bool" where
  "boundary img x y =
     (neighbour_open img (int x - 1) (int y) \<or> neighbour_open img (int x + 1) (int y)
      \<or> neighbour_open img (int x) (int y - 1) \<or> neighbour_open img (int x) (int y + 1))"

text \<open>The output pixel the specification prescribes at \<open>(x, y)\<close>.\<close>

definition outline_pixel :: "image \<Rightarrow> nat \<Rightarrow> nat \<Rightarrow> pixel" where
  "outline_pixel img x y =
     (if alpha (pix img x y) = 0 then transparent
      else if boundary img x y then pix img x y
      else transparent)"

text \<open>The positions whose source pixel is copied.\<close>

definition keep :: "image \<Rightarrow> nat \<Rightarrow> nat \<Rightarrow> bool" where
  "keep img x y = (alpha (pix img x y) \<noteq> 0 \<and> boundary img x y)"

text \<open>Equal dimensions.\<close>

definition same_size :: "image \<Rightarrow> image \<Rightarrow> bool" where
  "same_size a b = (width a = width b \<and> height a = height b)"

text \<open>A coordinate of the grid.\<close>

definition inside :: "image \<Rightarrow> nat \<times> nat \<Rightarrow> bool" where
  "inside img c = (fst c < width img \<and> snd c < height img)"

text \<open>The coordinates in the order of the two nested loops: row by row.\<close>

definition coords :: "nat \<Rightarrow> nat \<Rightarrow> (nat \<times> nat) list" where
  "coords w h = concat (map (\<lambda>y. map (\<lambda>x. (x, y)) [0..<w]) [0..<h])"

section \<open>Notions used to state the properties\<close>

text \<open>The coordinates whose pixel has non-zero alpha, in row order.\<close>

definition opaque_coords :: "image \<Rightarrow> (nat \<times> nat) list" where
  "opaque_coords img =
     filter (\<lambda>c. alpha (pix img (fst c) (snd c)) \<noteq> 0) (coords (width img) (height img))"

text \<open>Every pixel of the grid has non-zero alpha.\<close>

definition fully_opaque :: "image \<Rightarrow> bool" where
  "fully_opaque img =
     list_all (\<lambda>c. alpha (pix img (fst c) (snd c)) \<noteq> 0) (coords (width img) (height img))"

text \<open>The image with one pixel replaced.\<close>

definition with_pixel :: "image \<Rightarrow> nat \<Rightarrow> nat \<Rightarrow> pixel \<Rightarrow> image" where
  "with_pixel img x y v = img\<lparr>data := (data img)[y := (data img ! y)[x := v]]\<rparr>"

text \<open>
  Two images agree at \<open>(x, y)\<close> and at those of its four direct neighbours that lie
  in the grid.
\<close>

definition agree_around :: "image \<Rightarrow> image \<Rightarrow> nat \<Rightarrow> nat \<Rightarrow> bool" where
  "agree_around a b x y =
     (pix a x y = pix b x y
      \<and> (0 < x \<longrightarrow> pix a (x - 1) y = pix b (x - 1) y)
      \<and> (x + 1 < width a \<longrightarrow> pix a (x + 1) y = pix b (x + 1) y)
      \<and> (0 < y \<longrightarrow> pix a x (y - 1) = pix b x (y - 1))
      \<and> (y + 1 < height a \<longrightarrow> pix a x (y + 1) = pix b x (y + 1)))"

text \<open>
  The two coordinate loops with the coordinates visited in a given order \<open>cs\<close> instead of
  row by row: the same body, the same fresh output image.
\<close>

definition outline_in_order :: "image \<Rightarrow> (nat \<times> nat) list \<Rightarrow> error + image" where
  "outline_in_order img cs =
     for_each (visit img (width img) (height img)) cs
       (image_new (width img) (height img) (0, 0, 0, 0))"

subsection \<open>Sample images\<close>

definition empty_image :: image where
  "empty_image = \<lparr>width = 0, height = 0, data = []\<rparr>"

definition solid3 :: image where
  "solid3 = image_new 3 3 (200, 40, 40, 255)"

definition ring3 :: image where
  "ring3 = \<lparr>width = 3, height = 3, data =
     [[(200, 40, 40, 255), (200, 40, 40, 255), (200, 40, 40, 255)],
      [(200, 40, 40, 255), (0, 0, 0, 0), (200, 40, 40, 255)],
      [(200, 40, 40, 255), (200, 40, 40, 255), (200, 40, 40, 255)]]\<rparr>"

definition dot3 :: image where
  "dot3 = \<lparr>width = 3, height = 3, data =
     [[(0, 0, 0, 0), (0, 0, 0, 0), (0, 0, 0, 0)],
      [(0, 0, 0, 0), (10, 20, 30, 255), (0, 0, 0, 0)],
      [(0, 0, 0, 0), (0, 0, 0, 0), (0, 0, 0, 0)]]\<rparr>"

definition tinted_dot3 :: image where
  "tinted_dot3 = \<lparr>width = 3, height = 3, data =
     [[(255, 255, 255, 0), (0, 0, 0, 0), (0, 0, 0, 0)],
      [(0, 0, 0, 0), (10, 20, 30, 255), (0, 0, 0, 0)],
      [(0, 0, 0, 0), (0, 0, 0, 0), (0, 0, 0, 0)]]\<rparr>"

section \<open>Basic facts about the pixel access and the loops\<close>

lemma getitem_inside:
  "0 \<le> x \<Longrightarrow> x < int (width img) \<Longrightarrow> 0 \<le> y \<Longrightarrow> y < int (height img) \<Longrightarrow>
   getitem img (x, y) = Inr (pix img (nat x) (nat y))"
  by (simp add: getitem_def resolve_def)

lemma setitem_inside:
  "x < width img \<Longrightarrow> y < height img \<Longrightarrow>
   setitem img (int x, int y) v =
     Inr (img\<lparr>data := (data img)[y := (data img ! y)[x := v]]\<rparr>)"
  by (simp add: setitem_def resolve_def)

lemma edge_step:
  "edge_scan img (width img) (height img) x y (d # ds) =
     (if neighbour_open img (x + fst d) (y + snd d) then Inr True
      else edge_scan img (width img) (height img) x y ds)"
  by (auto simp: neighbour_open_def Let_def getitem_inside)

lemma edge_scan_offsets:
  "edge_scan img (width img) (height img) (int x) (int y) offsets = Inr (boundary img x y)"
  unfolding offsets_def edge_step boundary_def by simp

lemma visit_inside:
  assumes "x < width img" "y < height img" "same_size out img"
  shows "visit img (width img) (height img) (x, y) out =
     Inr (if alpha (pix img x y) \<noteq> 0 \<and> boundary img x y
          then out\<lparr>data := (data out)[y := (data out ! y)[x := pix img x y]]\<rparr>
          else out)"
  using assms
  by (simp add: visit_def Let_def getitem_inside edge_scan_offsets setitem_inside same_size_def)

lemma well_formed_row:
  "well_formed img \<Longrightarrow> y < height img \<Longrightarrow> length (data img ! y) = width img"
  by (simp add: well_formed_def list_all_length)

lemma well_formed_update:
  assumes "well_formed out" "y < height out"
  shows "well_formed (out\<lparr>data := (data out)[y := (data out ! y)[x := v]]\<rparr>)"
  using assms
  by (auto simp: well_formed_def list_all_length nth_list_update)

lemma pix_update:
  assumes "well_formed out" "x < width out" "y < height out"
  shows "pix (out\<lparr>data := (data out)[y := (data out ! y)[x := v]]\<rparr>) x' y' =
     (if x' = x \<and> y' = y then v else pix out x' y')"
  using assms
  by (auto simp: pix_def well_formed_def list_all_length nth_list_update)

lemma for_each_append:
  "for_each body (as @ bs) s =
     (case for_each body as s of Inl e \<Rightarrow> Inl e | Inr s' \<Rightarrow> for_each body bs s')"
  by (induction as arbitrary: s) (auto split: sum.splits)

lemma for_each_map:
  "for_each body (map g as) s = for_each (\<lambda>a. body (g a)) as s"
  by (induction as arbitrary: s) (auto split: sum.splits)

lemma for_each_nested:
  "for_each (\<lambda>y. for_each (\<lambda>x. body (x, y)) xs) ys s =
   for_each body (concat (map (\<lambda>y. map (\<lambda>x. (x, y)) xs) ys)) s"
  by (induction ys arbitrary: s) (auto simp: for_each_append for_each_map split: sum.splits)

lemma visit_loop:
  assumes "well_formed out" "same_size out img" "list_all (inside img) cs"
  shows "\<exists>out'. for_each (visit img (width img) (height img)) cs out = Inr out'
           \<and> well_formed out' \<and> same_size out' img
           \<and> (\<forall>x y. x < width img \<longrightarrow> y < height img \<longrightarrow>
                pix out' x y = (if (x, y) \<in> set cs \<and> keep img x y then pix img x y
                                else pix out x y))"
  using assms
proof (induction cs arbitrary: out)
  case Nil
  then show ?case by simp
next
  case (Cons c cs)
  obtain x y where c: "c = (x, y)" by (cases c)
  from Cons.prems c have xy: "x < width img" "y < height img"
    by (simp_all add: inside_def)
  define mid where "mid = (if keep img x y
      then out\<lparr>data := (data out)[y := (data out ! y)[x := pix img x y]]\<rparr> else out)"
  have step: "visit img (width img) (height img) c out = Inr mid"
    using visit_inside[OF xy Cons.prems(2)] by (simp add: c mid_def keep_def)
  have out_xy: "x < width out" "y < height out"
    using xy Cons.prems(2) by (simp_all add: same_size_def)
  have wf_mid: "well_formed mid"
    using Cons.prems(1) out_xy by (simp add: mid_def well_formed_update)
  have sz_mid: "same_size mid img"
    using Cons.prems(2) by (simp add: mid_def same_size_def)
  have pix_mid: "pix mid x' y' = (if x' = x \<and> y' = y \<and> keep img x y then pix img x y
                                  else pix out x' y')" for x' y'
    using pix_update[OF Cons.prems(1) out_xy] by (simp add: mid_def)
  from Cons.prems(3) have "list_all (inside img) cs" by simp
  from Cons.IH[OF wf_mid sz_mid this] obtain out' where
    run: "for_each (visit img (width img) (height img)) cs mid = Inr out'"
    and wf: "well_formed out'" and sz: "same_size out' img"
    and px: "\<And>x' y'. x' < width img \<Longrightarrow> y' < height img \<Longrightarrow>
        pix out' x' y' = (if (x', y') \<in> set cs \<and> keep img x' y' then pix img x' y'
                          else pix mid x' y')"
    by blast
  have "for_each (visit img (width img) (height img)) (c # cs) out = Inr out'"
    by (simp add: step run)
  moreover have "pix out' x' y' =
      (if (x', y') \<in> set (c # cs) \<and> keep img x' y' then pix img x' y' else pix out x' y')"
    if "x' < width img" "y' < height img" for x' y'
    using px[OF that] by (auto simp: pix_mid c)
  ultimately show ?case using wf sz by blast
qed

lemma set_coords: "set (coords w h) = {c. fst c < w \<and> snd c < h}"
  by (auto simp: coords_def)

lemma make_outline_flat:
  "make_outline img =
     for_each (visit img (width img) (height img)) (coords (width img) (height img))
       (image_new (width img) (height img) (0, 0, 0, 0))"
  by (simp add: make_outline_def Let_def coords_def for_each_nested)

lemma well_formed_new: "well_formed (image_new w h c)"
  by (simp add: well_formed_def image_new_def list_all_length)

lemma same_size_new: "same_size (image_new (width img) (height img) c) img"
  by (simp add: same_size_def image_new_def)

lemma pix_new: "x < w \<Longrightarrow> y < h \<Longrightarrow> pix (image_new w h c) x y = c"
  by (simp add: pix_def image_new_def)

lemma in_order_result:
  assumes "list_all (inside img) cs" "{c. inside img c} \<subseteq> set cs"
  shows "\<exists>out. for_each (visit img (width img) (height img)) cs
                 (image_new (width img) (height img) (0, 0, 0, 0)) = Inr out
           \<and> well_formed out \<and> same_size out img
           \<and> (\<forall>x y. x < width img \<longrightarrow> y < height img \<longrightarrow>
                 pix out x y = outline_pixel img x y)"
proof -
  from visit_loop[OF well_formed_new same_size_new assms(1)] obtain out where
    run: "for_each (visit img (width img) (height img)) cs
            (image_new (width img) (height img) (0, 0, 0, 0)) = Inr out"
    and wf: "well_formed out" and sz: "same_size out img"
    and px: "\<And>x y. x < width img \<Longrightarrow> y < height img \<Longrightarrow>
        pix out x y = (if (x, y) \<in> set cs \<and> keep img x y then pix img x y
                       else pix (image_new (width img) (height img) (0, 0, 0, 0)) x y)"
    by blast
  have "pix out x y = outline_pixel img x y" if "x < width img" "y < height img" for x y
  proof -
    have "(x, y) \<in> set cs" using assms(2) that by (auto simp: inside_def)
    then show ?thesis
      using px[OF that] that
      by (auto simp: pix_new keep_def outline_pixel_def transparent_def)
  qed
  with run wf sz show ?thesis by blast
qed

lemma make_outline_result:
  "\<exists>out. make_outline img = Inr out \<and> well_formed out \<and> same_size out img
         \<and> (\<forall>x y. x < width img \<longrightarrow> y < height img \<longrightarrow>
               pix out x y = outline_pixel img x y)"
  unfolding make_outline_flat
  by (rule in_order_result) (auto simp: list_all_iff set_coords inside_def)

lemma image_eqI:
  fixes a b :: image
  assumes "well_formed a" "well_formed b" "same_size a b"
    and "\<And>x y. x < width a \<Longrightarrow> y < height a \<Longrightarrow> pix a x y = pix b x y"
  shows "a = b"
proof -
  have len: "length (data a) = length (data b)"
    using assms(1-3) by (simp add: well_formed_def same_size_def)
  have "data a ! y = data b ! y" if "y < length (data a)" for y
  proof (rule nth_equalityI)
    have y: "y < height a" "y < height b"
      using that assms(1-3) by (simp_all add: well_formed_def same_size_def)
    show "length (data a ! y) = length (data b ! y)"
      using well_formed_row[OF assms(1) y(1)] well_formed_row[OF assms(2) y(2)] assms(3)
      by (simp add: same_size_def)
    show "data a ! y ! x = data b ! y ! x" if "x < length (data a ! y)" for x
      using assms(4)[of x y] that y well_formed_row[OF assms(1) y(1)]
      by (simp add: pix_def)
  qed
  with len have "data a = data b" by (rule nth_equalityI)
  then show ?thesis using assms(3) by (simp add: same_size_def)
qed

lemma nat_pred: "0 < x \<Longrightarrow> nat (int x - 1) = x - 1"
  by simp

lemma nat_succ: "nat (int x + 1) = x + 1"
  by simp

lemma outline_pixel_local:
  assumes "same_size a b"
    and "pix a x y = pix b x y"
    and "0 < x \<Longrightarrow> pix a (x - 1) y = pix b (x - 1) y"
    and "x + 1 < width a \<Longrightarrow> pix a (x + 1) y = pix b (x + 1) y"
    and "0 < y \<Longrightarrow> pix a x (y - 1) = pix b x (y - 1)"
    and "y + 1 < height a \<Longrightarrow> pix a x (y + 1) = pix b x (y + 1)"
  shows "outline_pixel a x y = outline_pixel b x y"
proof -
  have sz: "width a = width b" "height a = height b"
    using assms(1) by (simp_all add: same_size_def)
  have l: "neighbour_open a (int x - 1) (int y) = neighbour_open b (int x - 1) (int y)"
    using assms(3) by (cases "0 < x") (auto simp: neighbour_open_def sz nat_pred)
  have r: "neighbour_open a (int x + 1) (int y) = neighbour_open b (int x + 1) (int y)"
    using assms(4) by (cases "x + 1 < width a") (auto simp: neighbour_open_def sz nat_succ)
  have u: "neighbour_open a (int x) (int y - 1) = neighbour_open b (int x) (int y - 1)"
    using assms(5) by (cases "0 < y") (auto simp: neighbour_open_def sz nat_pred)
  have d: "neighbour_open a (int x) (int y + 1) = neighbour_open b (int x) (int y + 1)"
    using assms(6) by (cases "y + 1 < height a") (auto simp: neighbour_open_def sz nat_succ)
  show ?thesis
    by (simp add: outline_pixel_def boundary_def l r u d assms(2))
qed

lemma alpha_transparent: "alpha transparent = 0"
  by (simp add: transparent_def)

lemma outline_pixel_cases:
  "outline_pixel img x y = transparent \<or> outline_pixel img x y = pix img x y"
  by (simp add: outline_pixel_def)

lemma alpha_outline_pixel:
  "alpha (outline_pixel img x y) \<noteq> 0 \<longleftrightarrow> keep img x y"
  by (simp add: outline_pixel_def keep_def alpha_transparent)

lemma set_opaque_coords:
  "set (opaque_coords img) =
     {c. fst c < width img \<and> snd c < height img \<and> alpha (pix img (fst c) (snd c)) \<noteq> 0}"
  by (auto simp: opaque_coords_def set_coords)

lemma well_formed_with_pixel:
  "well_formed img \<Longrightarrow> y < height img \<Longrightarrow> well_formed (with_pixel img x y v)"
  unfolding with_pixel_def by (rule well_formed_update)

lemma same_size_with_pixel: "same_size (with_pixel img x y v) img"
  by (simp add: with_pixel_def same_size_def)

lemma pix_with_pixel:
  "well_formed img \<Longrightarrow> x < width img \<Longrightarrow> y < height img \<Longrightarrow>
   pix (with_pixel img x y v) x' y' = (if x' = x \<and> y' = y then v else pix img x' y')"
  unfolding with_pixel_def by (rule pix_update)

lemma fully_opaque_iff:
  "fully_opaque img \<longleftrightarrow>
     (\<forall>x y. x < width img \<longrightarrow> y < height img \<longrightarrow> alpha (pix img x y) \<noteq> 0)"
  by (auto simp: fully_opaque_def list_all_iff set_coords)

lemma boundary_fully_opaque:
  assumes "fully_opaque img" "x < width img" "y < height img"
  shows "boundary img x y \<longleftrightarrow> x = 0 \<or> x + 1 = width img \<or> y = 0 \<or> y + 1 = height img"
proof -
  have op: "alpha (pix img x' y') \<noteq> 0" if "x' < width img" "y' < height img" for x' y'
    using assms(1) that by (simp add: fully_opaque_iff)
  have l: "neighbour_open img (int x - 1) (int y) \<longleftrightarrow> x = 0"
    using assms(2,3) op[of "x - 1" y] by (cases "x = 0") (auto simp: neighbour_open_def nat_pred)
  have r: "neighbour_open img (int x + 1) (int y) \<longleftrightarrow> x + 1 = width img"
    using assms(2,3) op[of "x + 1" y]
    by (cases "x + 1 = width img") (auto simp: neighbour_open_def nat_succ)
  have u: "neighbour_open img (int x) (int y - 1) \<longleftrightarrow> y = 0"
    using assms(2,3) op[of x "y - 1"] by (cases "y = 0") (auto simp: neighbour_open_def nat_pred)
  have d: "neighbour_open img (int x) (int y + 1) \<longleftrightarrow> y + 1 = height img"
    using assms(2,3) op[of x "y + 1"]
    by (cases "y + 1 = height img") (auto simp: neighbour_open_def nat_succ)
  show ?thesis by (simp add: boundary_def l r u d)
qed

lemma outline_pixel_transparent:
  "alpha (outline_pixel img x y) = 0 \<Longrightarrow> outline_pixel img x y = transparent"
  by (auto simp: outline_pixel_def)

lemma neighbour_open_outline:
  assumes "same_size out img"
    and "\<And>x y. x < width img \<Longrightarrow> y < height img \<Longrightarrow> pix out x y = outline_pixel img x y"
    and "neighbour_open img nx ny"
  shows "neighbour_open out nx ny"
proof (cases "nx < 0 \<or> int (width img) \<le> nx \<or> ny < 0 \<or> int (height img) \<le> ny")
  case True
  then show ?thesis using assms(1) by (auto simp: neighbour_open_def same_size_def)
next
  case False
  then have xy: "nat nx < width img" "nat ny < height img" by auto
  from False assms(3) have "alpha (pix img (nat nx) (nat ny)) = 0"
    by (auto simp: neighbour_open_def)
  then have "outline_pixel img (nat nx) (nat ny) = transparent"
    by (simp add: outline_pixel_def)
  with assms(2)[OF xy] show ?thesis
    by (simp add: neighbour_open_def alpha_transparent)
qed

lemma outline_pixel_fixed:
  assumes "same_size out img"
    and px: "\<And>x y. x < width img \<Longrightarrow> y < height img \<Longrightarrow> pix out x y = outline_pixel img x y"
    and xy: "x < width img" "y < height img"
  shows "outline_pixel out x y = pix out x y"
proof (cases "alpha (pix out x y) = 0")
  case True
  with px[OF xy] outline_pixel_transparent[of img x y] have "pix out x y = transparent"
    by simp
  with True show ?thesis by (simp add: outline_pixel_def)
next
  case False
  with px[OF xy] have "keep img x y" by (simp add: alpha_outline_pixel)
  then have "boundary img x y" by (simp add: keep_def)
  then have "boundary out x y"
    unfolding boundary_def using neighbour_open_outline[OF assms(1) px] by blast
  with False show ?thesis by (simp add: outline_pixel_def)
qed

section \<open>The claims\<close>

subsection \<open>Dimension preservation\<close>

text \<open>
  Claim C3. For every source image, the output of the outline extraction has exactly the
  same width and the same height as the source image (and its grid really has that many
  rows and columns).
\<close>

theorem dimensions_preserved:
  assumes "well_formed img"
  shows "\<exists>out. make_outline img = Inr out \<and> width out = width img \<and> height out = height img
           \<and> well_formed out"
  using make_outline_result[of img] by (auto simp: same_size_def)

theorem dimensions_preserved_witness:
  "well_formed solid3 \<and> make_outline solid3 = Inr ring3
   \<and> width ring3 = width solid3 \<and> height ring3 = height solid3 \<and> well_formed ring3"
proof -
  have wf: "well_formed solid3" by code_simp
  have run: "make_outline solid3 = Inr ring3" by code_simp
  from dimensions_preserved[OF wf] run wf show ?thesis by auto
qed

subsection \<open>The output invariant\<close>

text \<open>
  Claim C2. For every source image, every pixel of the output image is either the
  transparent default \<open>(0,0,0,0)\<close> or identical to the source pixel at the same
  coordinate; no output pixel is a blended or channel-modified value.
\<close>

theorem output_pixel_is_default_or_source:
  assumes "well_formed img"
  shows "\<exists>out. make_outline img = Inr out \<and>
           (\<forall>x y. x < width out \<longrightarrow> y < height out \<longrightarrow>
              pix out x y = (0, 0, 0, 0) \<or> pix out x y = pix img x y)"
proof -
  from make_outline_result[of img] obtain out where
    run: "make_outline img = Inr out" and sz: "same_size out img"
    and px: "\<And>x y. x < width img \<Longrightarrow> y < height img \<Longrightarrow> pix out x y = outline_pixel img x y"
    by blast
  have "pix out x y = (0, 0, 0, 0) \<or> pix out x y = pix img x y"
    if "x < width out" "y < height out" for x y
    using px[of x y] that sz outline_pixel_cases[of img x y]
    by (simp add: same_size_def transparent_def)
  with run show ?thesis by blast
qed

theorem output_pixel_is_default_or_source_witness:
  "well_formed solid3 \<and> make_outline solid3 = Inr ring3
   \<and> pix ring3 1 1 = (0, 0, 0, 0) \<and> pix ring3 2 1 = pix solid3 2 1"
proof -
  have wf: "well_formed solid3" by code_simp
  have run: "make_outline solid3 = Inr ring3" by code_simp
  have a: "pix ring3 1 1 = (0, 0, 0, 0)" by code_simp
  have b: "pix ring3 2 1 = pix solid3 2 1" by code_simp
  from output_pixel_is_default_or_source[OF wf] run wf a b show ?thesis by auto
qed

subsection \<open>Subset property and transparency preservation\<close>

text \<open>
  Claim C4. For every source image, the set of coordinates whose output pixel has
  non-zero alpha is a subset of the set of coordinates whose source pixel has non-zero
  alpha; in particular every source pixel with alpha 0 maps to a fully transparent
  \<open>(0,0,0,0)\<close> output pixel.
\<close>

theorem opaque_subset_and_transparency_kept:
  assumes "well_formed img"
  shows "\<exists>out. make_outline img = Inr out
           \<and> set (opaque_coords out) \<subseteq> set (opaque_coords img)
           \<and> (\<forall>x y. x < width img \<longrightarrow> y < height img \<longrightarrow> alpha (pix img x y) = 0 \<longrightarrow>
                 pix out x y = (0, 0, 0, 0))"
proof -
  from make_outline_result[of img] obtain out where
    run: "make_outline img = Inr out" and sz: "same_size out img"
    and px: "\<And>x y. x < width img \<Longrightarrow> y < height img \<Longrightarrow> pix out x y = outline_pixel img x y"
    by blast
  have dims: "width out = width img" "height out = height img"
    using sz by (simp_all add: same_size_def)
  have "c \<in> set (opaque_coords img)" if "c \<in> set (opaque_coords out)" for c
  proof -
    from that have c: "fst c < width img" "snd c < height img"
      and a: "alpha (pix out (fst c) (snd c)) \<noteq> 0"
      by (simp_all add: set_opaque_coords dims)
    from a px[OF c] have "keep img (fst c) (snd c)"
      by (simp add: alpha_outline_pixel)
    with c show ?thesis by (simp add: set_opaque_coords keep_def)
  qed
  then have sub: "set (opaque_coords out) \<subseteq> set (opaque_coords img)" by blast
  have "pix out x y = (0, 0, 0, 0)"
    if "x < width img" "y < height img" "alpha (pix img x y) = 0" for x y
    using px[OF that(1,2)] that(3) by (simp add: outline_pixel_def transparent_def)
  with run sub show ?thesis by blast
qed

theorem opaque_subset_and_transparency_kept_witness:
  "well_formed tinted_dot3 \<and> make_outline tinted_dot3 = Inr dot3
   \<and> set (opaque_coords dot3) \<subseteq> set (opaque_coords tinted_dot3)
   \<and> pix tinted_dot3 0 0 = (255, 255, 255, 0) \<and> pix dot3 0 0 = (0, 0, 0, 0)"
proof -
  have wf: "well_formed tinted_dot3" by code_simp
  have run: "make_outline tinted_dot3 = Inr dot3" by code_simp
  have a: "pix tinted_dot3 0 0 = (255, 255, 255, 0)" by code_simp
  have b: "(0::nat) < width tinted_dot3" "(0::nat) < height tinted_dot3"
    by (simp_all add: tinted_dot3_def)
  from opaque_subset_and_transparency_kept[OF wf] run
  have "set (opaque_coords dot3) \<subseteq> set (opaque_coords tinted_dot3)"
    and "\<And>x y. x < width tinted_dot3 \<Longrightarrow> y < height tinted_dot3 \<Longrightarrow>
           alpha (pix tinted_dot3 x y) = 0 \<Longrightarrow> pix dot3 x y = (0, 0, 0, 0)"
    by auto
  from this(1) this(2)[OF b] a wf run show ?thesis by simp
qed

subsection \<open>The boundary rule\<close>

text \<open>
  Claim C1. For every source image of width W and height H and every coordinate \<open>(x, y)\<close>
  with \<open>0 \<le> x < W\<close> and \<open>0 \<le> y < H\<close>: if the source pixel's alpha is 0 the output pixel
  is the transparent default; otherwise, if at least one of the four axis-aligned
  neighbour offsets \<open>(-1,0)\<close>, \<open>(+1,0)\<close>, \<open>(0,-1)\<close>, \<open>(0,+1)\<close> lands outside
  \<open>[0,W) \<times> [0,H)\<close> or the neighbour pixel there has alpha 0, the output pixel equals the
  source pixel's four-channel value unchanged; otherwise the output pixel remains
  transparent. Diagonal neighbours are never consulted: replacing the pixel at a diagonal
  neighbour of \<open>(x, y)\<close> by any value leaves the output pixel at \<open>(x, y)\<close> as it was.
\<close>

theorem boundary_rule:
  assumes "well_formed img" "x < width img" "y < height img"
  shows "\<exists>out. make_outline img = Inr out
     \<and> pix out x y =
         (if alpha (pix img x y) = 0 then (0, 0, 0, 0)
          else if neighbour_open img (int x - 1) (int y)
                \<or> neighbour_open img (int x + 1) (int y)
                \<or> neighbour_open img (int x) (int y - 1)
                \<or> neighbour_open img (int x) (int y + 1)
               then pix img x y
               else (0, 0, 0, 0))
     \<and> (\<forall>x' y' v. x' < width img \<and> y' < height img
            \<and> (x' + 1 = x \<or> x' = x + 1) \<and> (y' + 1 = y \<or> y' = y + 1) \<longrightarrow>
          (\<exists>out'. make_outline (with_pixel img x' y' v) = Inr out'
             \<and> pix out' x y = pix out x y))"
proof -
  from make_outline_result[of img] obtain out where
    run: "make_outline img = Inr out"
    and px: "\<And>x y. x < width img \<Longrightarrow> y < height img \<Longrightarrow> pix out x y = outline_pixel img x y"
    by blast
  have rule: "pix out x y =
         (if alpha (pix img x y) = 0 then (0, 0, 0, 0)
          else if neighbour_open img (int x - 1) (int y)
                \<or> neighbour_open img (int x + 1) (int y)
                \<or> neighbour_open img (int x) (int y - 1)
                \<or> neighbour_open img (int x) (int y + 1)
               then pix img x y
               else (0, 0, 0, 0))"
    using px[OF assms(2,3)] by (simp add: outline_pixel_def boundary_def transparent_def)
  have diag: "\<exists>out'. make_outline (with_pixel img x' y' v) = Inr out' \<and> pix out' x y = pix out x y"
    if inside: "x' < width img" "y' < height img"
      and dx: "x' + 1 = x \<or> x' = x + 1" and dy: "y' + 1 = y \<or> y' = y + 1"
    for x' y' v
  proof -
    let ?img' = "with_pixel img x' y' v"
    have sz: "same_size ?img' img" by (rule same_size_with_pixel)
    then have dims: "width ?img' = width img" "height ?img' = height img"
      by (simp_all add: same_size_def)
    from make_outline_result[of ?img'] obtain out' where
      run': "make_outline ?img' = Inr out'"
      and px': "\<And>x y. x < width ?img' \<Longrightarrow> y < height ?img' \<Longrightarrow>
                 pix out' x y = outline_pixel ?img' x y"
      by blast
    have same: "pix ?img' a b = pix img a b" if "a \<noteq> x' \<or> b \<noteq> y'" for a b
      using pix_with_pixel[OF assms(1) inside, of v a b] that by auto
    have "outline_pixel ?img' x y = outline_pixel img x y"
    proof (rule outline_pixel_local[OF sz])
      show "pix ?img' x y = pix img x y" using dx by (intro same) auto
      show "pix ?img' (x - 1) y = pix img (x - 1) y" using dy by (intro same) auto
      show "pix ?img' (x + 1) y = pix img (x + 1) y" using dy by (intro same) auto
      show "pix ?img' x (y - 1) = pix img x (y - 1)" using dx by (intro same) auto
      show "pix ?img' x (y + 1) = pix img x (y + 1)" using dx by (intro same) auto
    qed
    with px'[of x y] px[OF assms(2,3)] assms(2,3) dims have "pix out' x y = pix out x y"
      by simp
    with run' show ?thesis by blast
  qed
  from run rule diag show ?thesis by blast
qed

theorem boundary_rule_witness:
  "well_formed solid3 \<and> 1 < width solid3 \<and> 1 < height solid3
   \<and> make_outline solid3 = Inr ring3
   \<and> alpha (pix solid3 1 1) \<noteq> 0
   \<and> \<not> neighbour_open solid3 0 1 \<and> \<not> neighbour_open solid3 2 1
   \<and> \<not> neighbour_open solid3 1 0 \<and> \<not> neighbour_open solid3 1 2
   \<and> pix ring3 1 1 = (0, 0, 0, 0)
   \<and> (\<exists>out'. make_outline (with_pixel solid3 0 0 (0, 0, 0, 0)) = Inr out'
         \<and> pix out' 1 1 = pix ring3 1 1)"
proof -
  have wf: "well_formed solid3" by code_simp
  have x: "1 < width solid3" and y: "1 < height solid3"
    by (simp_all add: solid3_def image_new_def)
  have run: "make_outline solid3 = Inr ring3" by code_simp
  have a: "alpha (pix solid3 1 1) \<noteq> 0" by code_simp
  have n: "\<not> neighbour_open solid3 0 1" "\<not> neighbour_open solid3 2 1"
    "\<not> neighbour_open solid3 1 0" "\<not> neighbour_open solid3 1 2"
    by code_simp+
  have c: "(0::nat) < width solid3 \<and> (0::nat) < height solid3
      \<and> ((0::nat) + 1 = 1 \<or> (0::nat) = 1 + 1) \<and> ((0::nat) + 1 = 1 \<or> (0::nat) = 1 + 1)"
    by (simp add: solid3_def image_new_def)
  from boundary_rule[OF wf x y] obtain out where
    r: "make_outline solid3 = Inr out"
    and p: "pix out 1 1 =
         (if alpha (pix solid3 1 1) = 0 then (0, 0, 0, 0)
          else if neighbour_open solid3 (int 1 - 1) (int 1)
                \<or> neighbour_open solid3 (int 1 + 1) (int 1)
                \<or> neighbour_open solid3 (int 1) (int 1 - 1)
                \<or> neighbour_open solid3 (int 1) (int 1 + 1)
               then pix solid3 1 1
               else (0, 0, 0, 0))"
    and d: "\<forall>x' y' v. x' < width solid3 \<and> y' < height solid3
            \<and> (x' + 1 = 1 \<or> x' = 1 + 1) \<and> (y' + 1 = 1 \<or> y' = 1 + 1) \<longrightarrow>
          (\<exists>out'. make_outline (with_pixel solid3 x' y' v) = Inr out'
             \<and> pix out' 1 1 = pix out 1 1)"
    by blast
  from r run have out: "out = ring3" by simp
  from p a n have centre: "pix ring3 1 1 = (0, 0, 0, 0)" by (simp add: out)
  from d[rule_format, OF c, of "(0, 0, 0, 0)"]
  have corner: "\<exists>out'. make_outline (with_pixel solid3 0 0 (0, 0, 0, 0)) = Inr out'
         \<and> pix out' 1 1 = pix ring3 1 1"
    by (simp only: out)
  from wf x y run a n centre corner show ?thesis by blast
qed

subsection \<open>Totality\<close>

text \<open>
  Claim C8. The outline extraction is total: for every well-formed image with
  \<open>W \<ge> 0\<close> and \<open>H \<ge> 0\<close> it never raises an error. A neighbour coordinate that is out
  of bounds is handled by the bounds check of the boundary rule (the scan answers
  \<open>edge = True\<close> there without reading a pixel, so outside counts as transparent), the
  scan of the four offsets never ends in an error, and a \<open>0 \<times> 0\<close> input produces a
  \<open>0 \<times> 0\<close> output.
\<close>

theorem make_outline_total:
  assumes "well_formed img"
  shows "(\<exists>out. make_outline img = Inr out \<and> well_formed out)
     \<and> (\<forall>x y d ds.
           x + fst d < 0 \<or> int (width img) \<le> x + fst d
           \<or> y + snd d < 0 \<or> int (height img) \<le> y + snd d \<longrightarrow>
           edge_scan img (width img) (height img) x y (d # ds) = Inr True)
     \<and> (\<forall>x y. edge_scan img (width img) (height img) (int x) (int y) offsets
                 = Inr (boundary img x y))
     \<and> make_outline empty_image = Inr empty_image"
proof -
  have a: "\<exists>out. make_outline img = Inr out \<and> well_formed out"
    using make_outline_result[of img] by blast
  have b: "edge_scan img (width img) (height img) x y (d # ds) = Inr True"
    if "x + fst d < 0 \<or> int (width img) \<le> x + fst d
        \<or> y + snd d < 0 \<or> int (height img) \<le> y + snd d" for x y d ds
    using that by (auto simp: Let_def)
  have c: "make_outline empty_image = Inr empty_image"
    by (simp add: make_outline_def empty_image_def image_new_def)
  from a b c edge_scan_offsets show ?thesis by blast
qed

theorem make_outline_total_witness:
  "well_formed solid3 \<and> make_outline solid3 = Inr ring3 \<and> well_formed ring3
   \<and> edge_scan solid3 (width solid3) (height solid3) 0 0 ((-1, 0) # [(1, 0)]) = Inr True
   \<and> make_outline empty_image = Inr empty_image"
proof -
  have wf: "well_formed solid3" by code_simp
  have run: "make_outline solid3 = Inr ring3" by code_simp
  have wf': "well_formed ring3" by code_simp
  have out: "(0::int) + fst (- 1 :: int, 0 :: int) < 0 \<or> int (width solid3) \<le> 0 + fst (- 1 :: int, 0 :: int)
      \<or> (0::int) + snd (- 1 :: int, 0 :: int) < 0 \<or> int (height solid3) \<le> 0 + snd (- 1 :: int, 0 :: int)"
    by simp
  from make_outline_total[OF wf]
  have scan: "\<forall>x y d ds.
           x + fst d < 0 \<or> int (width solid3) \<le> x + fst d
           \<or> y + snd d < 0 \<or> int (height solid3) \<le> y + snd d \<longrightarrow>
           edge_scan solid3 (width solid3) (height solid3) x y (d # ds) = Inr True"
    and empty: "make_outline empty_image = Inr empty_image"
    by blast+
  from scan[rule_format, OF out, of "[(1, 0)]"] wf run wf' empty show ?thesis by blast
qed

subsection \<open>Determinism, order independence and locality\<close>

text \<open>
  Claim C9. The outline extraction is deterministic: two runs on equal source images
  produce equal output images. The result is independent of the order in which the
  coordinates are processed: visiting the coordinates of the grid in any order (each at
  least once) gives the result of the row-by-row loops. Each output pixel depends only on
  the corresponding source pixel and its four direct neighbours: two images of one size
  that agree there have the same output pixel.
\<close>

theorem deterministic_order_independent_local:
  assumes "well_formed a"
  shows "(\<forall>b. b = a \<longrightarrow> make_outline b = make_outline a)
     \<and> (\<forall>cs. set cs = set (coords (width a) (height a)) \<longrightarrow>
           outline_in_order a cs = make_outline a)
     \<and> (\<forall>b x y. well_formed b \<and> same_size b a \<and> x < width a \<and> y < height a
            \<and> agree_around b a x y \<longrightarrow>
          (\<exists>oa ob. make_outline a = Inr oa \<and> make_outline b = Inr ob
             \<and> pix ob x y = pix oa x y))"
proof -
  from make_outline_result[of a] obtain oa where
    run: "make_outline a = Inr oa" and wf: "well_formed oa" and sz: "same_size oa a"
    and px: "\<And>x y. x < width a \<Longrightarrow> y < height a \<Longrightarrow> pix oa x y = outline_pixel a x y"
    by blast
  have order: "outline_in_order a cs = make_outline a"
    if cs: "set cs = set (coords (width a) (height a))" for cs
  proof -
    have "list_all (inside a) cs" "{c. inside a c} \<subseteq> set cs"
      using cs by (auto simp: list_all_iff set_coords inside_def)
    from in_order_result[OF this] obtain oc where
      run_c: "outline_in_order a cs = Inr oc" and wf_c: "well_formed oc"
      and sz_c: "same_size oc a"
      and px_c: "\<And>x y. x < width a \<Longrightarrow> y < height a \<Longrightarrow> pix oc x y = outline_pixel a x y"
      unfolding outline_in_order_def by blast
    have dims: "width oc = width a" "height oc = height a"
      using sz_c by (simp_all add: same_size_def)
    have "oc = oa"
    proof (rule image_eqI[OF wf_c wf])
      show "same_size oc oa" using sz sz_c by (simp add: same_size_def)
      show "pix oc x y = pix oa x y" if "x < width oc" "y < height oc" for x y
        using that dims px[of x y] px_c[of x y] by simp
    qed
    with run run_c show ?thesis by simp
  qed
  have local: "\<exists>oa ob. make_outline a = Inr oa \<and> make_outline b = Inr ob
             \<and> pix ob x y = pix oa x y"
    if b: "well_formed b" "same_size b a" "x < width a" "y < height a" "agree_around b a x y"
    for b x y
  proof -
    have dims: "width b = width a" "height b = height a"
      using b(2) by (simp_all add: same_size_def)
    from make_outline_result[of b] obtain ob where
      run_b: "make_outline b = Inr ob"
      and px_b: "\<And>x y. x < width b \<Longrightarrow> y < height b \<Longrightarrow> pix ob x y = outline_pixel b x y"
      by blast
    have "outline_pixel b x y = outline_pixel a x y"
      using b(5) by (intro outline_pixel_local[OF b(2)]) (simp_all add: agree_around_def)
    with px[OF b(3,4)] px_b[of x y] b(3,4) dims have "pix ob x y = pix oa x y" by simp
    with run run_b show ?thesis by blast
  qed
  from order local show ?thesis by blast
qed

theorem deterministic_order_independent_local_witness:
  "well_formed solid3
   \<and> set (rev (coords 3 3)) = set (coords (width solid3) (height solid3))
   \<and> outline_in_order solid3 (rev (coords 3 3)) = make_outline solid3
   \<and> well_formed (with_pixel solid3 0 0 (0, 0, 0, 0))
   \<and> same_size (with_pixel solid3 0 0 (0, 0, 0, 0)) solid3
   \<and> agree_around (with_pixel solid3 0 0 (0, 0, 0, 0)) solid3 2 2
   \<and> (\<exists>oa ob. make_outline solid3 = Inr oa
         \<and> make_outline (with_pixel solid3 0 0 (0, 0, 0, 0)) = Inr ob
         \<and> pix ob 2 2 = pix oa 2 2)"
proof -
  have wf: "well_formed solid3" by code_simp
  have cs: "set (rev (coords 3 3)) = set (coords (width solid3) (height solid3))"
    by (simp add: solid3_def image_new_def)
  have b: "well_formed (with_pixel solid3 0 0 (0, 0, 0, 0))
      \<and> same_size (with_pixel solid3 0 0 (0, 0, 0, 0)) solid3
      \<and> 2 < width solid3 \<and> 2 < height solid3
      \<and> agree_around (with_pixel solid3 0 0 (0, 0, 0, 0)) solid3 2 2"
    by code_simp
  from deterministic_order_independent_local[OF wf]
  have order: "\<forall>cs. set cs = set (coords (width solid3) (height solid3)) \<longrightarrow>
           outline_in_order solid3 cs = make_outline solid3"
    and local: "\<forall>b x y. well_formed b \<and> same_size b solid3 \<and> x < width solid3
            \<and> y < height solid3 \<and> agree_around b solid3 x y \<longrightarrow>
          (\<exists>oa ob. make_outline solid3 = Inr oa \<and> make_outline b = Inr ob
             \<and> pix ob x y = pix oa x y)"
    by blast+
  from order[rule_format, OF cs] local[rule_format, OF b] wf cs b show ?thesis by blast
qed

subsection \<open>The solid rectangle\<close>

text \<open>
  Claim C6. For every solid \<open>W \<times> H\<close> source image with \<open>W \<ge> 3\<close> and \<open>H \<ge> 3\<close> in which
  every pixel has non-zero alpha, the output's non-transparent pixels are exactly those in
  the outermost row/column ring (\<open>x = 0\<close>, \<open>x = W - 1\<close>, \<open>y = 0\<close> or \<open>y = H - 1\<close>), and
  every interior pixel of the output is transparent.
\<close>

theorem solid_rectangle_ring:
  assumes "well_formed img" "3 \<le> width img" "3 \<le> height img" "fully_opaque img"
  shows "\<exists>out. make_outline img = Inr out
     \<and> (\<forall>x y. x < width img \<longrightarrow> y < height img \<longrightarrow>
           (alpha (pix out x y) \<noteq> 0
              \<longleftrightarrow> x = 0 \<or> x = width img - 1 \<or> y = 0 \<or> y = height img - 1))
     \<and> (\<forall>x y. 0 < x \<and> x < width img - 1 \<and> 0 < y \<and> y < height img - 1 \<longrightarrow>
           pix out x y = (0, 0, 0, 0))"
proof -
  from make_outline_result[of img] obtain out where
    run: "make_outline img = Inr out"
    and px: "\<And>x y. x < width img \<Longrightarrow> y < height img \<Longrightarrow> pix out x y = outline_pixel img x y"
    by blast
  have k: "keep img x y \<longleftrightarrow> x = 0 \<or> x = width img - 1 \<or> y = 0 \<or> y = height img - 1"
    if "x < width img" "y < height img" for x y
  proof -
    have "alpha (pix img x y) \<noteq> 0"
      using assms(4) that by (simp add: fully_opaque_iff)
    moreover have "x + 1 = width img \<longleftrightarrow> x = width img - 1"
      and "y + 1 = height img \<longleftrightarrow> y = height img - 1"
      using that by auto
    ultimately show ?thesis
      using boundary_fully_opaque[OF assms(4) that] by (simp add: keep_def)
  qed
  have ring: "alpha (pix out x y) \<noteq> 0
      \<longleftrightarrow> x = 0 \<or> x = width img - 1 \<or> y = 0 \<or> y = height img - 1"
    if "x < width img" "y < height img" for x y
    using px[OF that] k[OF that] by (simp add: alpha_outline_pixel)
  have inner: "pix out x y = (0, 0, 0, 0)"
    if "0 < x \<and> x < width img - 1 \<and> 0 < y \<and> y < height img - 1" for x y
  proof -
    from that have xy: "x < width img" "y < height img" by auto
    from k[OF xy] that have "\<not> keep img x y" by auto
    with px[OF xy] show ?thesis
      by (auto simp: outline_pixel_def keep_def transparent_def)
  qed
  from run ring inner show ?thesis by blast
qed

theorem solid_rectangle_ring_witness:
  "well_formed solid3 \<and> 3 \<le> width solid3 \<and> 3 \<le> height solid3 \<and> fully_opaque solid3
   \<and> make_outline solid3 = Inr ring3
   \<and> opaque_coords ring3 = [(0, 0), (1, 0), (2, 0), (0, 1), (2, 1), (0, 2), (1, 2), (2, 2)]
   \<and> alpha (pix ring3 2 1) \<noteq> 0 \<and> pix ring3 1 1 = (0, 0, 0, 0)"
proof -
  have wf: "well_formed solid3" by code_simp
  have w: "3 \<le> width solid3" and h: "3 \<le> height solid3"
    by (simp_all add: solid3_def image_new_def)
  have full: "fully_opaque solid3" by code_simp
  have run: "make_outline solid3 = Inr ring3" by code_simp
  have oc: "opaque_coords ring3 = [(0, 0), (1, 0), (2, 0), (0, 1), (2, 1), (0, 2), (1, 2), (2, 2)]"
    by code_simp
  from solid_rectangle_ring[OF wf w h full] obtain out where
    r: "make_outline solid3 = Inr out"
    and ring: "\<forall>x y. x < width solid3 \<longrightarrow> y < height solid3 \<longrightarrow>
           (alpha (pix out x y) \<noteq> 0
              \<longleftrightarrow> x = 0 \<or> x = width solid3 - 1 \<or> y = 0 \<or> y = height solid3 - 1)"
    and inner: "\<forall>x y. 0 < x \<and> x < width solid3 - 1 \<and> 0 < y \<and> y < height solid3 - 1 \<longrightarrow>
           pix out x y = (0, 0, 0, 0)"
    by blast
  from r run have out: "out = ring3" by simp
  have dims: "width solid3 = 3" "height solid3 = 3"
    by (simp_all add: solid3_def image_new_def)
  from ring[rule_format, of 2 1] have a: "alpha (pix ring3 2 1) \<noteq> 0"
    by (simp add: out dims)
  from inner[rule_format, of 1 1] have b: "pix ring3 1 1 = (0, 0, 0, 0)"
    by (simp add: out dims)
  from wf w h full run oc a b show ?thesis by blast
qed

subsection \<open>A non-empty shape has a non-empty outline\<close>

text \<open>
  Claim C10. For every source image with \<open>W \<ge> 1\<close> and \<open>H \<ge> 1\<close> that contains at least
  one pixel with non-zero alpha, the output contains at least one non-transparent pixel:
  an opaque pixel at an extremal coordinate of the opaque set (one with minimal \<open>y\<close>)
  always has a neighbour that is out of bounds or transparent and is therefore copied to
  the output.
\<close>

theorem nonempty_shape_has_outline:
  assumes "well_formed img" "1 \<le> width img" "1 \<le> height img" "opaque_coords img \<noteq> []"
  shows "\<exists>out. make_outline img = Inr out
     \<and> opaque_coords out \<noteq> []
     \<and> (\<forall>c. c \<in> set (opaque_coords img)
              \<and> (\<forall>c'. c' \<in> set (opaque_coords img) \<longrightarrow> snd c \<le> snd c') \<longrightarrow>
            neighbour_open img (int (fst c)) (int (snd c) - 1)
            \<and> pix out (fst c) (snd c) = pix img (fst c) (snd c)
            \<and> c \<in> set (opaque_coords out))"
proof -
  from make_outline_result[of img] obtain out where
    run: "make_outline img = Inr out" and sz: "same_size out img"
    and px: "\<And>x y. x < width img \<Longrightarrow> y < height img \<Longrightarrow> pix out x y = outline_pixel img x y"
    by blast
  have dims: "width out = width img" "height out = height img"
    using sz by (simp_all add: same_size_def)
  have top: "neighbour_open img (int (fst c)) (int (snd c) - 1)
            \<and> pix out (fst c) (snd c) = pix img (fst c) (snd c)
            \<and> c \<in> set (opaque_coords out)"
    if c: "c \<in> set (opaque_coords img)"
      and least: "\<forall>c'. c' \<in> set (opaque_coords img) \<longrightarrow> snd c \<le> snd c'" for c
  proof -
    from c have xy: "fst c < width img" "snd c < height img"
      and a: "alpha (pix img (fst c) (snd c)) \<noteq> 0"
      by (simp_all add: set_opaque_coords)
    have up: "neighbour_open img (int (fst c)) (int (snd c) - 1)"
    proof (cases "snd c = 0")
      case True
      then show ?thesis by (simp add: neighbour_open_def)
    next
      case False
      have "(fst c, snd c - 1) \<notin> set (opaque_coords img)"
        using least[rule_format, of "(fst c, snd c - 1)"] False by auto
      with xy False have "alpha (pix img (fst c) (snd c - 1)) = 0"
        by (simp add: set_opaque_coords)
      with False show ?thesis by (simp add: neighbour_open_def nat_pred)
    qed
    then have "boundary img (fst c) (snd c)" by (simp add: boundary_def)
    with a px[OF xy] have p: "pix out (fst c) (snd c) = pix img (fst c) (snd c)"
      by (simp add: outline_pixel_def)
    with a xy have "c \<in> set (opaque_coords out)"
      by (simp add: set_opaque_coords dims)
    with up p show ?thesis by blast
  qed
  from assms(4) obtain c0 where c0: "c0 \<in> set (opaque_coords img)"
    by (cases "opaque_coords img") auto
  then have "\<exists>c. c \<in> set (opaque_coords img)
      \<and> (\<forall>c'. c' \<in> set (opaque_coords img) \<longrightarrow> snd c \<le> snd c')"
    by (rule ex_has_least_nat)
  then obtain c where c: "c \<in> set (opaque_coords img)"
    and least: "\<forall>c'. c' \<in> set (opaque_coords img) \<longrightarrow> snd c \<le> snd c'"
    by blast
  from top[OF c least] have "opaque_coords out \<noteq> []" by auto
  with run top show ?thesis by blast
qed

theorem nonempty_shape_has_outline_witness:
  "well_formed solid3 \<and> 1 \<le> width solid3 \<and> 1 \<le> height solid3 \<and> opaque_coords solid3 \<noteq> []
   \<and> make_outline solid3 = Inr ring3 \<and> opaque_coords ring3 \<noteq> []
   \<and> (1, 0) \<in> set (opaque_coords solid3)
   \<and> neighbour_open solid3 1 (- 1) \<and> pix ring3 1 0 = pix solid3 1 0
   \<and> (1, 0) \<in> set (opaque_coords ring3)"
proof -
  have wf: "well_formed solid3" by code_simp
  have w: "1 \<le> width solid3" and h: "1 \<le> height solid3"
    by (simp_all add: solid3_def image_new_def)
  have ne: "opaque_coords solid3 \<noteq> []" by code_simp
  have run: "make_outline solid3 = Inr ring3" by code_simp
  have c: "((1, 0) :: nat \<times> nat) \<in> set (opaque_coords solid3)" by code_simp
  have least: "\<forall>c'. c' \<in> set (opaque_coords solid3) \<longrightarrow> snd ((1, 0) :: nat \<times> nat) \<le> snd c'"
    by simp
  from nonempty_shape_has_outline[OF wf w h ne] obtain out where
    r: "make_outline solid3 = Inr out" and ne': "opaque_coords out \<noteq> []"
    and top: "\<forall>c. c \<in> set (opaque_coords solid3)
              \<and> (\<forall>c'. c' \<in> set (opaque_coords solid3) \<longrightarrow> snd c \<le> snd c') \<longrightarrow>
            neighbour_open solid3 (int (fst c)) (int (snd c) - 1)
            \<and> pix out (fst c) (snd c) = pix solid3 (fst c) (snd c)
            \<and> c \<in> set (opaque_coords out)"
    by blast
  from r run have out: "out = ring3" by simp
  from top[rule_format, of "(1, 0)"] c least
  have "neighbour_open solid3 1 (- 1) \<and> pix ring3 1 0 = pix solid3 1 0
      \<and> (1, 0) \<in> set (opaque_coords ring3)"
    by (simp add: out)
  with wf w h ne run ne' c show ?thesis by (simp add: out)
qed

subsection \<open>Applying the extraction twice\<close>

text \<open>
  Claim C5, as the specification states it: for every source image whose opaque shape is
  thicker than 1 pixel, applying the outline extraction twice yields a strictly smaller
  set of non-transparent pixels the second time than the first application yields.

  The code does not behave so. A copied pixel has an open neighbour in the source, and
  that neighbour is open in the outline as well, so the outline of an outline is the
  outline itself. The solid \<open>3 \<times> 3\<close> square is a shape 3 pixels thick on which the second
  application returns what the first returned.
\<close>

theorem reextraction_shrinks_counterexample:
  "well_formed solid3 \<and> width solid3 = 3 \<and> height solid3 = 3 \<and> fully_opaque solid3
   \<and> \<not> (\<exists>first second. make_outline solid3 = Inr first \<and> make_outline first = Inr second
           \<and> set (opaque_coords second) \<subset> set (opaque_coords first))"
proof -
  have wf: "well_formed solid3" by code_simp
  have dims: "width solid3 = 3" "height solid3 = 3"
    by (simp_all add: solid3_def image_new_def)
  have full: "fully_opaque solid3" by code_simp
  have one: "make_outline solid3 = Inr ring3" by code_simp
  have two: "make_outline ring3 = Inr ring3" by code_simp
  from one two have "\<not> (\<exists>first second. make_outline solid3 = Inr first
      \<and> make_outline first = Inr second
      \<and> set (opaque_coords second) \<subset> set (opaque_coords first))"
    by auto
  with wf dims full show ?thesis by blast
qed

text \<open>
  Claim C5, amended. For every source image, applying the outline extraction to its own
  output returns that output unchanged (the extraction is idempotent), so the second
  application yields the same set of non-transparent pixels as the first. What shrinks
  is the first application against the source: when the source has an opaque pixel whose
  four direct neighbours are all in the grid and opaque, the first application yields a
  strictly smaller set of non-transparent pixels than the source has.
\<close>

theorem reextraction_idempotent:
  assumes "well_formed img"
  shows "\<exists>out. make_outline img = Inr out
     \<and> make_outline out = Inr out
     \<and> ((\<exists>c \<in> set (opaque_coords img). \<not> boundary img (fst c) (snd c)) \<longrightarrow>
          set (opaque_coords out) \<subset> set (opaque_coords img))"
proof -
  from make_outline_result[of img] obtain out where
    run: "make_outline img = Inr out" and wf: "well_formed out" and sz: "same_size out img"
    and px: "\<And>x y. x < width img \<Longrightarrow> y < height img \<Longrightarrow> pix out x y = outline_pixel img x y"
    by blast
  have dims: "width out = width img" "height out = height img"
    using sz by (simp_all add: same_size_def)
  from make_outline_result[of out] obtain again where
    run2: "make_outline out = Inr again" and wf2: "well_formed again"
    and sz2: "same_size again out"
    and px2: "\<And>x y. x < width out \<Longrightarrow> y < height out \<Longrightarrow> pix again x y = outline_pixel out x y"
    by blast
  have "again = out"
  proof (rule image_eqI[OF wf2 wf sz2])
    fix x y assume "x < width again" "y < height again"
    with sz2 dims have xy: "x < width img" "y < height img"
      by (simp_all add: same_size_def)
    from px2[of x y] xy dims outline_pixel_fixed[OF sz px xy]
    show "pix again x y = pix out x y" by simp
  qed
  with run2 have idem: "make_outline out = Inr out" by simp
  have sub: "set (opaque_coords out) \<subseteq> set (opaque_coords img)"
  proof
    fix c assume "c \<in> set (opaque_coords out)"
    then have c: "fst c < width img" "snd c < height img"
      and a: "alpha (pix out (fst c) (snd c)) \<noteq> 0"
      by (simp_all add: set_opaque_coords dims)
    from a px[OF c] have "keep img (fst c) (snd c)" by (simp add: alpha_outline_pixel)
    with c show "c \<in> set (opaque_coords img)" by (simp add: set_opaque_coords keep_def)
  qed
  have strict: "set (opaque_coords out) \<subset> set (opaque_coords img)"
    if "\<exists>c \<in> set (opaque_coords img). \<not> boundary img (fst c) (snd c)"
  proof -
    from that obtain c where c: "c \<in> set (opaque_coords img)"
      and nb: "\<not> boundary img (fst c) (snd c)" by blast
    from c have xy: "fst c < width img" "snd c < height img"
      by (simp_all add: set_opaque_coords)
    from px[OF xy] nb have "alpha (pix out (fst c) (snd c)) = 0"
      by (simp add: outline_pixel_def alpha_transparent)
    then have "c \<notin> set (opaque_coords out)" by (simp add: set_opaque_coords)
    with c sub show ?thesis by blast
  qed
  from run idem strict show ?thesis by blast
qed

theorem reextraction_idempotent_witness:
  "well_formed solid3 \<and> make_outline solid3 = Inr ring3 \<and> make_outline ring3 = Inr ring3
   \<and> (1, 1) \<in> set (opaque_coords solid3) \<and> \<not> boundary solid3 1 1
   \<and> set (opaque_coords ring3) \<subset> set (opaque_coords solid3)"
proof -
  have wf: "well_formed solid3" by code_simp
  have run: "make_outline solid3 = Inr ring3" by code_simp
  have c: "((1, 1) :: nat \<times> nat) \<in> set (opaque_coords solid3)" by code_simp
  have nb: "\<not> boundary solid3 1 1" by code_simp
  from c nb have thick: "\<exists>c \<in> set (opaque_coords solid3). \<not> boundary solid3 (fst c) (snd c)"
    by (intro bexI[of _ "(1, 1)"]) simp_all
  from reextraction_idempotent[OF wf] obtain out where
    r: "make_outline solid3 = Inr out" and idem: "make_outline out = Inr out"
    and strict: "(\<exists>c \<in> set (opaque_coords solid3). \<not> boundary solid3 (fst c) (snd c)) \<longrightarrow>
          set (opaque_coords out) \<subset> set (opaque_coords solid3)"
    by blast
  from r run have out: "out = ring3" by simp
  from idem strict[rule_format, OF thick] wf run c nb show ?thesis by (simp add: out)
qed

subsection \<open>The single isolated pixel\<close>

text \<open>
  Claim C7, as the specification states it: for every \<open>3 \<times> 3\<close> source image in which
  only the center pixel has non-zero alpha, the outline extraction produces an output
  image identical to the input image.

  A pixel with alpha 0 may carry colour, and such a pixel is skipped, so the output has
  the default \<open>(0,0,0,0)\<close> there: the image below, whose corner is \<open>(255,255,255,0)\<close>, is
  not returned unchanged.
\<close>

theorem isolated_pixel_identity_counterexample:
  "well_formed tinted_dot3 \<and> width tinted_dot3 = 3 \<and> height tinted_dot3 = 3
   \<and> opaque_coords tinted_dot3 = [(1, 1)]
   \<and> make_outline tinted_dot3 \<noteq> Inr tinted_dot3"
proof -
  have wf: "well_formed tinted_dot3" by code_simp
  have dims: "width tinted_dot3 = 3" "height tinted_dot3 = 3"
    by (simp_all add: tinted_dot3_def)
  have only: "opaque_coords tinted_dot3 = [(1, 1)]" by code_simp
  have run: "make_outline tinted_dot3 = Inr dot3" by code_simp
  have "dot3 \<noteq> tinted_dot3" by (simp add: dot3_def tinted_dot3_def)
  with run have "make_outline tinted_dot3 \<noteq> Inr tinted_dot3" by simp
  with wf dims only show ?thesis by blast
qed

text \<open>
  Claim C7, amended. For every \<open>3 \<times> 3\<close> source image in which only the center pixel has
  non-zero alpha, the output has the source's center pixel at the center (it is a
  boundary pixel, its four neighbours being transparent) and \<open>(0,0,0,0)\<close> at every other
  coordinate; the output is identical to the input exactly when every pixel of the input
  other than the center is \<open>(0,0,0,0)\<close>.
\<close>

theorem isolated_pixel_output:
  assumes "well_formed img" "width img = 3" "height img = 3" "opaque_coords img = [(1, 1)]"
  shows "\<exists>out. make_outline img = Inr out
     \<and> pix out 1 1 = pix img 1 1
     \<and> (\<forall>x y. x < 3 \<and> y < 3 \<and> (x, y) \<noteq> (1, 1) \<longrightarrow> pix out x y = (0, 0, 0, 0))
     \<and> (out = img \<longleftrightarrow>
          (\<forall>x y. x < 3 \<and> y < 3 \<and> (x, y) \<noteq> (1, 1) \<longrightarrow> pix img x y = (0, 0, 0, 0)))"
proof -
  from make_outline_result[of img] obtain out where
    run: "make_outline img = Inr out" and wf: "well_formed out" and sz: "same_size out img"
    and px: "\<And>x y. x < width img \<Longrightarrow> y < height img \<Longrightarrow> pix out x y = outline_pixel img x y"
    by blast
  have op: "alpha (pix img x y) \<noteq> 0 \<longleftrightarrow> (x, y) = (1, 1)" if "x < 3" "y < 3" for x y
  proof -
    have "(x, y) \<in> set (opaque_coords img) \<longleftrightarrow> alpha (pix img x y) \<noteq> 0"
      using that assms(2,3) by (simp add: set_opaque_coords)
    then show ?thesis by (simp add: assms(4))
  qed
  have "neighbour_open img (int 1 - 1) (int 1)"
    using op[of 0 1] assms(2,3) by (simp add: neighbour_open_def)
  then have "boundary img 1 1" by (simp add: boundary_def)
  moreover have "alpha (pix img 1 1) \<noteq> 0" using op[of 1 1] by simp
  ultimately have centre: "pix out 1 1 = pix img 1 1"
    using px[of 1 1] assms(2,3) by (simp add: outline_pixel_def)
  have rest: "pix out x y = (0, 0, 0, 0)" if "x < 3 \<and> y < 3 \<and> (x, y) \<noteq> (1, 1)" for x y
  proof -
    from that have xy: "x < 3" "y < 3" and off: "(x, y) \<noteq> (1, 1)" by simp_all
    from op[OF xy] off have "alpha (pix img x y) = 0" by blast
    then have "outline_pixel img x y = (0, 0, 0, 0)"
      by (simp add: outline_pixel_def transparent_def)
    with px[of x y] xy assms(2,3) show ?thesis by simp
  qed
  have same: "out = img \<longleftrightarrow>
      (\<forall>x y. x < 3 \<and> y < 3 \<and> (x, y) \<noteq> (1, 1) \<longrightarrow> pix img x y = (0, 0, 0, 0))"
  proof
    assume "out = img"
    with rest show "\<forall>x y. x < 3 \<and> y < 3 \<and> (x, y) \<noteq> (1, 1) \<longrightarrow> pix img x y = (0, 0, 0, 0)"
      by simp
  next
    assume clear: "\<forall>x y. x < 3 \<and> y < 3 \<and> (x, y) \<noteq> (1, 1) \<longrightarrow> pix img x y = (0, 0, 0, 0)"
    show "out = img"
    proof (rule image_eqI[OF wf assms(1) sz])
      fix x y assume "x < width out" "y < height out"
      with sz assms(2,3) have xy: "x < 3" "y < 3" by (simp_all add: same_size_def)
      show "pix out x y = pix img x y"
      proof (cases "(x, y) = (1, 1)")
        case True
        with centre show ?thesis by simp
      next
        case False
        with rest[of x y] clear xy show ?thesis by simp
      qed
    qed
  qed
  from run centre rest same show ?thesis by blast
qed

theorem isolated_pixel_output_witness:
  "well_formed dot3 \<and> width dot3 = 3 \<and> height dot3 = 3 \<and> opaque_coords dot3 = [(1, 1)]
   \<and> make_outline dot3 = Inr dot3
   \<and> pix dot3 1 1 = (10, 20, 30, 255) \<and> pix dot3 0 2 = (0, 0, 0, 0)"
proof -
  have wf: "well_formed dot3" by code_simp
  have dims: "width dot3 = 3" "height dot3 = 3" by (simp_all add: dot3_def)
  have only: "opaque_coords dot3 = [(1, 1)]" by code_simp
  have run: "make_outline dot3 = Inr dot3" by code_simp
  have c: "pix dot3 1 1 = (10, 20, 30, 255)" by code_simp
  from isolated_pixel_output[OF wf dims only] obtain out where
    r: "make_outline dot3 = Inr out"
    and rest: "\<forall>x y. x < 3 \<and> y < 3 \<and> (x, y) \<noteq> (1, 1) \<longrightarrow> pix out x y = (0, 0, 0, 0)"
    by blast
  from r run have out: "out = dot3" by simp
  from rest[rule_format, of 0 2] have "pix dot3 0 2 = (0, 0, 0, 0)" by (simp add: out)
  with wf dims only run c show ?thesis by blast
qed

end
